theory Spec2Isabelle
  imports Main "HOL-Library.Word"
begin

section \<open>The embedded store (static/db.js)\<close>

text \<open>
  The store is an IndexedDB database with four object stores, each created with
  \<^verbatim>\<open>{ keyPath: 'id', autoIncrement: true }\<close>. An object store is modelled as the
  list of its rows in key order (the order of \<^verbatim>\<open>getAll\<close>) together with the current
  number of its key generator, which starts at 1, grows with every generated key and is
  not reset by \<^verbatim>\<open>clear\<close> or \<^verbatim>\<open>delete\<close>.

  A JavaScript string is the list of its UTF-16 code units. A timestamp is the clock
  reading behind \<^verbatim>\<open>new Date().toISOString()\<close> in milliseconds; the clock is an
  explicit argument of every operation that reads it.
\<close>

type_synonym jsstring = "16 word list"
type_synonym timestamp = int

record substation =
  s_id :: nat
  s_name :: jsstring
  s_createdAt :: timestamp

record machine =
  m_id :: nat
  m_substationId :: nat
  m_positionX :: int
  m_positionY :: int
  m_name :: jsstring
  m_info :: jsstring
  m_imageId :: "nat option"
  m_updatedAt :: timestamp
  m_createdAt :: timestamp

record image =
  i_id :: nat
  i_machineId :: "nat option"
  i_data :: jsstring
  i_timestamp :: timestamp

record syncRecord =
  r_id :: nat
  r_type :: jsstring
  r_from :: jsstring
  r_dataTimestamp :: timestamp
  r_timestamp :: timestamp

record db =
  substations :: "substation list"
  substations_gen :: nat
  machines :: "machine list"
  machines_gen :: nat
  images :: "image list"
  images_gen :: nat
  syncRecords :: "syncRecord list"
  syncRecords_gen :: nat

definition initDB :: db where
  "initDB = \<lparr>substations = [], substations_gen = 1, machines = [], machines_gen = 1,
             images = [], images_gen = 1, syncRecords = [], syncRecords_gen = 1\<rparr>"

datatype dom_error = ConstraintError | InvalidStateError

datatype db_error = DuplicateName | RequestError dom_error

subsection \<open>Requests on the object stores\<close>

text \<open>
  \<^verbatim>\<open>store.add(value)\<close> with no key in the value: the key generator supplies the key and
  the stored row carries it at the key path. The \<^verbatim>\<open>substations\<close> store has the unique
  index \<^verbatim>\<open>name\<close>; an \<^verbatim>\<open>add\<close> whose name is already indexed fails with
  \<^verbatim>\<open>ConstraintError\<close> and stores nothing.
\<close>

definition substations_add :: "substation \<Rightarrow> db \<Rightarrow> dom_error + nat \<times> db" where
  "substations_add s d =
     (if s_name s \<in> set (map s_name (substations d)) then Inl ConstraintError
      else Inr (substations_gen d,
                d\<lparr>substations := substations d @ [s\<lparr>s_id := substations_gen d\<rparr>],
                  substations_gen := Suc (substations_gen d)\<rparr>))"

definition machines_add :: "machine \<Rightarrow> db \<Rightarrow> nat \<times> db" where
  "machines_add m d =
     (machines_gen d,
      d\<lparr>machines := machines d @ [m\<lparr>m_id := machines_gen d\<rparr>],
        machines_gen := Suc (machines_gen d)\<rparr>)"

definition images_add :: "image \<Rightarrow> db \<Rightarrow> nat \<times> db" where
  "images_add i d =
     (images_gen d,
      d\<lparr>images := images d @ [i\<lparr>i_id := images_gen d\<rparr>],
        images_gen := Suc (images_gen d)\<rparr>)"

definition syncRecords_add :: "syncRecord \<Rightarrow> db \<Rightarrow> nat \<times> db" where
  "syncRecords_add r d =
     (syncRecords_gen d,
      d\<lparr>syncRecords := syncRecords d @ [r\<lparr>r_id := syncRecords_gen d\<rparr>],
        syncRecords_gen := Suc (syncRecords_gen d)\<rparr>)"

text \<open>
  \<^verbatim>\<open>machineStore.put(value)\<close> with a key in the value replaces the row of that key, or
  inserts the row at its place in key order; a key at or above the generator's current
  number moves the generator past it.
\<close>

definition machines_put :: "machine \<Rightarrow> db \<Rightarrow> nat \<times> db" where
  "machines_put m d =
     (m_id m,
      d\<lparr>machines :=
          (if m_id m \<in> set (map m_id (machines d))
           then map (\<lambda>r. if m_id r = m_id m then m else r) (machines d)
           else insort_key m_id m (machines d)),
        machines_gen := max (machines_gen d) (Suc (m_id m))\<rparr>)"

definition machines_get :: "nat \<Rightarrow> db \<Rightarrow> machine option" where
  "machines_get k d = find (\<lambda>r. m_id r = k) (machines d)"

definition machines_delete :: "nat \<Rightarrow> db \<Rightarrow> db" where
  "machines_delete k d = d\<lparr>machines := filter (\<lambda>r. m_id r \<noteq> k) (machines d)\<rparr>"

definition images_delete :: "nat \<Rightarrow> db \<Rightarrow> db" where
  "images_delete k d = d\<lparr>images := filter (\<lambda>r. i_id r \<noteq> k) (images d)\<rparr>"

definition substations_delete :: "nat \<Rightarrow> db \<Rightarrow> db" where
  "substations_delete k d = d\<lparr>substations := filter (\<lambda>r. s_id r \<noteq> k) (substations d)\<rparr>"

subsection \<open>Sites\<close>

definition getAllSubstations :: "db \<Rightarrow> substation list" where
  "getAllSubstations d = substations d"

text \<open>
  \<^verbatim>\<open>String.prototype.trim\<close> removes the code units of ECMAScript's WhiteSpace and
  LineTerminator productions from both ends.
\<close>

definition is_ws :: "16 word \<Rightarrow> bool" where
  "is_ws c \<longleftrightarrow>
     c \<in> {0x9, 0xA, 0xB, 0xC, 0xD, 0x20, 0xA0, 0x1680, 0x2000, 0x2001, 0x2002, 0x2003,
          0x2004, 0x2005, 0x2006, 0x2007, 0x2008, 0x2009, 0x200A, 0x2028, 0x2029, 0x202F,
          0x205F, 0x3000, 0xFEFF}"

definition trim :: "jsstring \<Rightarrow> jsstring" where
  "trim s = rev (dropWhile is_ws (rev (dropWhile is_ws s)))"

definition addSubstation :: "jsstring \<Rightarrow> timestamp \<Rightarrow> db \<Rightarrow> (db_error + substation) \<times> db" where
  "addSubstation name now d =
     (let substation = \<lparr>s_id = 0, s_name = trim name, s_createdAt = now\<rparr>
      in case substations_add substation d of
           Inr (k, d') \<Rightarrow> (Inr (substation\<lparr>s_id := k\<rparr>), d')
         | Inl e \<Rightarrow> (if e = ConstraintError then (Inl DuplicateName, d)
                      else (Inl (RequestError e), d)))"

subsection \<open>Devices\<close>

definition getMachinesBySubstationId :: "nat \<Rightarrow> db \<Rightarrow> machine list" where
  "getMachinesBySubstationId substationId d =
     filter (\<lambda>m. m_substationId m = substationId) (machines d)"

definition getMachineByPosition :: "nat \<Rightarrow> int \<Rightarrow> int \<Rightarrow> db \<Rightarrow> machine option" where
  "getMachineByPosition substationId positionX positionY d =
     find (\<lambda>m. m_positionX m = positionX \<and> m_positionY m = positionY)
       (getMachinesBySubstationId substationId d)"

text \<open>
  \<^verbatim>\<open>saveMachine\<close> reads the clock at three places: for the image's \<^verbatim>\<open>timestamp\<close>,
  for \<^verbatim>\<open>updatedAt\<close> and, for a new device, for \<^verbatim>\<open>createdAt\<close>.
\<close>

record saveClock =
  img_now :: timestamp
  upd_now :: timestamp
  crt_now :: timestamp

text \<open>\<^verbatim>\<open>name || ''\<close>: a missing, null or empty argument becomes the empty string.\<close>

definition or_empty :: "jsstring option \<Rightarrow> jsstring" where
  "or_empty x = (case x of None \<Rightarrow> [] | Some v \<Rightarrow> v)"

text \<open>
  The source declares \<^verbatim>\<open>let imageId = null\<close>, queues \<^verbatim>\<open>imageStore.add\<close> and assigns
  \<^verbatim>\<open>imageId = imageRequest.result\<close> in that request's \<^verbatim>\<open>onsuccess\<close> handler. The
  handler runs only after the synchronous block that builds \<^verbatim>\<open>machineData\<close> with
  \<^verbatim>\<open>imageId: imageId\<close> and queues the \<^verbatim>\<open>put\<close>/\<^verbatim>\<open>add\<close> of the device, so the
  device row and the resolved value carry the value \<^verbatim>\<open>imageId\<close> had at that moment:
  \<^verbatim>\<open>null\<close>. The image row carries \<^verbatim>\<open>existingMachine?.id\<close>, which is undefined for a
  new device. The two requests run in the order they were queued, in one transaction.
\<close>

definition saveMachine ::
  "nat \<Rightarrow> int \<Rightarrow> int \<Rightarrow> jsstring option \<Rightarrow> jsstring option \<Rightarrow> jsstring option \<Rightarrow>
   saveClock \<Rightarrow> db \<Rightarrow> machine \<times> db" where
  "saveMachine substationId positionX positionY name info imageData clk d =
     (let existingMachine = getMachineByPosition substationId positionX positionY d;
          d1 = (case imageData of
                  None \<Rightarrow> d
                | Some blob \<Rightarrow>
                    if blob = [] then d
                    else snd (images_add
                           \<lparr>i_id = 0, i_machineId = map_option m_id existingMachine,
                            i_data = blob, i_timestamp = img_now clk\<rparr> d));
          machineData =
            \<lparr>m_id = 0, m_substationId = substationId, m_positionX = positionX,
             m_positionY = positionY, m_name = or_empty name, m_info = or_empty info,
             m_imageId = None, m_updatedAt = upd_now clk, m_createdAt = 0\<rparr>
      in case existingMachine of
           Some e \<Rightarrow>
             (let md = machineData\<lparr>m_id := m_id e, m_createdAt := m_createdAt e\<rparr>;
                  r = machines_put md d1
              in (md\<lparr>m_id := fst r\<rparr>, snd r))
         | None \<Rightarrow>
             (let md = machineData\<lparr>m_createdAt := crt_now clk\<rparr>;
                  r = machines_add md d1
              in (md\<lparr>m_id := fst r\<rparr>, snd r)))"

text \<open>\<^verbatim>\<open>if (machine && machine.imageId)\<close>: the image id 0 is falsy, like null.\<close>

definition deleteMachine :: "nat \<Rightarrow> db \<Rightarrow> bool \<times> db" where
  "deleteMachine machineId d =
     (let d1 = (case machines_get machineId d of
                  None \<Rightarrow> d
                | Some machine \<Rightarrow>
                    (case m_imageId machine of
                       None \<Rightarrow> d
                     | Some i \<Rightarrow> if i = 0 then d else images_delete i d))
      in (True, machines_delete machineId d1))"

fun deleteMachines_loop :: "machine list \<Rightarrow> db \<Rightarrow> db" where
  "deleteMachines_loop [] d = d"
| "deleteMachines_loop (machine # ms) d =
     deleteMachines_loop ms (snd (deleteMachine (m_id machine) d))"

definition deleteMachinesBySubstationId :: "nat \<Rightarrow> db \<Rightarrow> db" where
  "deleteMachinesBySubstationId substationId d =
     deleteMachines_loop (getMachinesBySubstationId substationId d) d"

definition deleteSubstation :: "nat \<Rightarrow> db \<Rightarrow> bool \<times> db" where
  "deleteSubstation k d = (True, substations_delete k (deleteMachinesBySubstationId k d))"

subsection \<open>The sync log\<close>

definition addSyncRecord :: "jsstring \<Rightarrow> jsstring \<Rightarrow> timestamp \<Rightarrow> timestamp \<Rightarrow> db \<Rightarrow> nat \<times> db" where
  "addSyncRecord type from dataTimestamp now d =
     syncRecords_add \<lparr>r_id = 0, r_type = type, r_from = from,
                      r_dataTimestamp = dataTimestamp, r_timestamp = now\<rparr> d"

definition getAllSyncRecords :: "db \<Rightarrow> syncRecord list" where
  "getAllSyncRecords d = syncRecords d"

definition clearSyncRecords :: "db \<Rightarrow> bool \<times> db" where
  "clearSyncRecords d = (True, d\<lparr>syncRecords := []\<rparr>)"

subsection \<open>Export and import\<close>

record snapshot =
  version :: nat
  exportDate :: timestamp
  snap_substations :: "substation list"
  snap_machines :: "machine list"

definition DB_VERSION :: nat where
  "DB_VERSION = 1"

definition exportAllData :: "timestamp \<Rightarrow> db \<Rightarrow> snapshot" where
  "exportAllData now d =
     (let substations = getAllSubstations d;
          machines = concat (map (\<lambda>substation. getMachinesBySubstationId (s_id substation) d)
                               substations)
      in \<lparr>version = DB_VERSION, exportDate = now, snap_substations = substations,
          snap_machines = machines\<rparr>)"

text \<open>
  \<^verbatim>\<open>importData\<close> opens one read-write transaction over \<^verbatim>\<open>substations\<close>,
  \<^verbatim>\<open>machines\<close> and \<^verbatim>\<open>images\<close>, clears the three stores and adds the rows of the
  snapshot with \<^verbatim>\<open>id\<close> deleted. The loops run on the transaction's working state. A
  request whose error event is not cancelled aborts its transaction, and an aborted
  transaction leaves the database, key generators included, as it was when the
  transaction started; the handlers here only reject the promise.
\<close>

definition clear_stores :: "db \<Rightarrow> db" where
  "clear_stores d = d\<lparr>substations := [], machines := [], images := []\<rparr>"

fun import_substations :: "substation list \<Rightarrow> db \<Rightarrow> dom_error + db" where
  "import_substations [] d = Inr d"
| "import_substations (substation # rest) d =
     (case substations_add substation d of
        Inl e \<Rightarrow> Inl e
      | Inr r \<Rightarrow> import_substations rest (snd r))"

fun import_machines :: "machine list \<Rightarrow> db \<Rightarrow> db" where
  "import_machines [] d = d"
| "import_machines (machine # rest) d = import_machines rest (snd (machines_add machine d))"

definition importData :: "snapshot \<Rightarrow> db \<Rightarrow> (dom_error + bool) \<times> db" where
  "importData data d =
     (case import_substations (snap_substations data) (clear_stores d) of
        Inl e \<Rightarrow> (Inl e, d)
      | Inr d1 \<Rightarrow> (Inr True, import_machines (snap_machines data) d1))"

section \<open>The sync module (static/sync.js)\<close>

datatype message = SyncData snapshot | SyncRequest | Ping | Pong

datatype readyState = Connecting | Open | Closing | Closed

text \<open>
  An \<^verbatim>\<open>RTCDataChannel\<close>: its \<^verbatim>\<open>readyState\<close> and the messages handed to it so far.
  The platform's \<^verbatim>\<open>send\<close> throws \<^verbatim>\<open>InvalidStateError\<close> unless the channel is open.
\<close>

record rtcDataChannel =
  readyState :: readyState
  sent :: "message list"

definition channel_send :: "message \<Rightarrow> rtcDataChannel \<Rightarrow> dom_error + rtcDataChannel" where
  "channel_send msg ch =
     (if readyState ch = Open then Inr (ch\<lparr>sent := sent ch @ [msg]\<rparr>)
      else Inl InvalidStateError)"

record syncConnection =
  peerId :: jsstring
  isInitiator :: bool
  connected :: bool
  dataChannel :: "rtcDataChannel option"

text \<open>
  \<^verbatim>\<open>new SyncConnection(peerId, isInitiator)\<close>: the constructor sets the fields and calls
  \<^verbatim>\<open>init()\<close>, which up to its first \<^verbatim>\<open>await\<close> creates the data channel of an
  initiator. The channel starts in state \<^verbatim>\<open>connecting\<close>.
\<close>

definition new_SyncConnection :: "jsstring \<Rightarrow> bool \<Rightarrow> syncConnection" where
  "new_SyncConnection p initiator =
     \<lparr>peerId = p, isInitiator = initiator, connected = False,
      dataChannel = (if initiator then Some \<lparr>readyState = Connecting, sent = []\<rparr> else None)\<rparr>"

definition send :: "message \<Rightarrow> syncConnection \<Rightarrow> dom_error + syncConnection" where
  "send data c =
     (case dataChannel c of
        None \<Rightarrow> Inr c
      | Some ch \<Rightarrow>
          if readyState ch = Open
          then (case channel_send data ch of
                  Inl e \<Rightarrow> Inl e
                | Inr ch' \<Rightarrow> Inr (c\<lparr>dataChannel := Some ch'\<rparr>))
          else Inr c)"

text \<open>
  The handlers that \<^verbatim>\<open>setupDataChannel\<close> installs. The platform moves the channel
  to \<^verbatim>\<open>open\<close> (to \<^verbatim>\<open>closed\<close>) and then runs \<^verbatim>\<open>onopen\<close> (\<^verbatim>\<open>onclose\<close>), which
  sets (clears) the \<^verbatim>\<open>connected\<close> flag.
\<close>

definition dataChannel_onopen :: "syncConnection \<Rightarrow> syncConnection" where
  "dataChannel_onopen c =
     c\<lparr>connected := True,
       dataChannel := map_option (\<lambda>ch. ch\<lparr>readyState := Open\<rparr>) (dataChannel c)\<rparr>"

definition dataChannel_onclose :: "syncConnection \<Rightarrow> syncConnection" where
  "dataChannel_onclose c =
     c\<lparr>connected := False,
       dataChannel := map_option (\<lambda>ch. ch\<lparr>readyState := Closed\<rparr>) (dataChannel c)\<rparr>"

datatype busMessage = BusSyncRequest jsstring | BusSyncData jsstring snapshot

text \<open>
  A \<^verbatim>\<open>LocalSyncManager\<close> owns the \<^verbatim>\<open>BroadcastChannel\<close> of the protocol; the model
  keeps the messages posted on it.
\<close>

record localSyncManager =
  posted :: "busMessage list"

definition broadcast :: "jsstring \<Rightarrow> snapshot \<Rightarrow> localSyncManager \<Rightarrow> localSyncManager" where
  "broadcast deviceId data lm = lm\<lparr>posted := posted lm @ [BusSyncData deviceId data]\<rparr>"

definition requestSync :: "jsstring \<Rightarrow> localSyncManager \<Rightarrow> localSyncManager" where
  "requestSync deviceId lm = lm\<lparr>posted := posted lm @ [BusSyncRequest deviceId]\<rparr>"

datatype status =
    StatusReady
  | StatusHosting jsstring nat jsstring
  | StatusConnecting jsstring
  | StatusDisconnected

text \<open>
  The module's variables, and the calls of \<^verbatim>\<open>onStatusChange\<close> made so far.
\<close>

record sync =
  syncClients :: "syncConnection list"
  localDeviceId :: jsstring
  isHosting :: bool
  isConnected :: bool
  localSyncManager :: "localSyncManager option"
  statusLog :: "status list"

definition SYNC_PORT :: nat where
  "SYNC_PORT = 51234"

definition initSync :: "jsstring \<Rightarrow> sync" where
  "initSync deviceId =
     \<lparr>syncClients = [], localDeviceId = deviceId, isHosting = False, isConnected = False,
      localSyncManager = None, statusLog = [StatusReady]\<rparr>"

definition startBroadcast :: "jsstring \<Rightarrow> sync \<Rightarrow> (jsstring \<times> nat \<times> jsstring) option \<times> sync" where
  "startBroadcast ip st =
     (if isHosting st then (None, st)
      else (Some (ip, SYNC_PORT, localDeviceId st),
            st\<lparr>localSyncManager := Some \<lparr>posted = []\<rparr>, isHosting := True,
               isConnected := True,
               statusLog := statusLog st @ [StatusHosting ip SYNC_PORT (localDeviceId st)]\<rparr>))"

definition stopBroadcast :: "sync \<Rightarrow> sync" where
  "stopBroadcast st =
     st\<lparr>localSyncManager := None, isHosting := False, isConnected := False,
        statusLog := statusLog st @ [StatusDisconnected]\<rparr>"

definition requestSyncFrom :: "jsstring \<Rightarrow> sync \<Rightarrow> bool \<times> sync" where
  "requestSyncFrom hostIp st =
     (if isHosting st then (False, st)
      else (let connection = new_SyncConnection hostIp True
            in (True,
                st\<lparr>syncClients := syncClients st @ [connection], isConnected := True,
                   statusLog := statusLog st @ [StatusConnecting hostIp]\<rparr>)))"

text \<open>
  The loop of \<^verbatim>\<open>performSync\<close> over \<^verbatim>\<open>syncClients\<close>; an exception of \<^verbatim>\<open>send\<close>
  leaves the loop at that client, for the \<^verbatim>\<open>catch\<close> of \<^verbatim>\<open>performSync\<close>.
\<close>

fun send_loop :: "message \<Rightarrow> syncConnection list \<Rightarrow> dom_error option \<times> syncConnection list" where
  "send_loop msg [] = (None, [])"
| "send_loop msg (client # rest) =
     (if connected client
      then (case send msg client of
              Inl e \<Rightarrow> (Some e, client # rest)
            | Inr client' \<Rightarrow> (fst (send_loop msg rest), client' # snd (send_loop msg rest)))
      else (fst (send_loop msg rest), client # snd (send_loop msg rest)))"

definition performSync :: "timestamp \<Rightarrow> db \<Rightarrow> sync \<Rightarrow> bool \<times> sync" where
  "performSync now d st =
     (if \<not> isConnected st \<and> \<not> isHosting st then (False, st)
      else (let data = exportAllData now d;
                st1 = (if isHosting st
                       then (case localSyncManager st of
                               None \<Rightarrow> st
                             | Some lm \<Rightarrow>
                                 st\<lparr>localSyncManager :=
                                      Some (broadcast (localDeviceId st) data lm)\<rparr>)
                       else st);
                r = send_loop (SyncData data) (syncClients st1)
            in (case fst r of
                  None \<Rightarrow> (True, st1\<lparr>syncClients := snd r\<rparr>)
                | Some e \<Rightarrow> (False, st1\<lparr>syncClients := snd r\<rparr>))))"

section \<open>Notions used by the properties\<close>

text \<open>The names held by the unique index of the \<^verbatim>\<open>substations\<close> store.\<close>

definition site_names :: "db \<Rightarrow> jsstring set" where
  "site_names d = set (map s_name (substations d))"

text \<open>
  What IndexedDB guarantees of every database of this schema: keys are unique within a
  store, generated keys are positive and below the generator's current number, and the
  unique index holds no name twice.
\<close>

definition wf_db :: "db \<Rightarrow> bool" where
  "wf_db d \<longleftrightarrow>
     distinct (map s_id (substations d)) \<and> distinct (map s_name (substations d)) \<and>
     list_all (\<lambda>s. 0 < s_id s \<and> s_id s < substations_gen d) (substations d) \<and>
     distinct (map m_id (machines d)) \<and>
     list_all (\<lambda>m. 0 < m_id m \<and> m_id m < machines_gen d) (machines d) \<and>
     distinct (map i_id (images d)) \<and>
     list_all (\<lambda>i. 0 < i_id i \<and> i_id i < images_gen d) (images d) \<and>
     0 < substations_gen d \<and> 0 < machines_gen d \<and> 0 < images_gen d"

text \<open>No device row carries an \<^verbatim>\<open>imageId\<close>.\<close>

definition no_pointer :: "db \<Rightarrow> bool" where
  "no_pointer d \<longleftrightarrow> list_all (\<lambda>m. m_imageId m = None) (machines d)"

text \<open>The devices of a site at one grid cell.\<close>

definition machines_at :: "nat \<Rightarrow> int \<Rightarrow> int \<Rightarrow> db \<Rightarrow> machine list" where
  "machines_at substationId positionX positionY d =
     filter (\<lambda>m. m_positionX m = positionX \<and> m_positionY m = positionY)
       (getMachinesBySubstationId substationId d)"

text \<open>
  A session's channel is open when it has a data channel whose \<^verbatim>\<open>readyState\<close> is
  \<^verbatim>\<open>open\<close>; the session is open when, in addition, its \<^verbatim>\<open>connected\<close> flag is set
  (\<^verbatim>\<open>onopen\<close> has run and \<^verbatim>\<open>onclose\<close> has not).
\<close>

definition channel_open :: "syncConnection \<Rightarrow> bool" where
  "channel_open c = (case dataChannel c of None \<Rightarrow> False | Some ch \<Rightarrow> readyState ch = Open)"

definition session_open :: "syncConnection \<Rightarrow> bool" where
  "session_open c \<longleftrightarrow> connected c \<and> channel_open c"

text \<open>The session after one more message has been handed to its channel.\<close>

definition deliver :: "message \<Rightarrow> syncConnection \<Rightarrow> syncConnection" where
  "deliver msg c = c\<lparr>dataChannel := map_option (\<lambda>ch. ch\<lparr>sent := sent ch @ [msg]\<rparr>) (dataChannel c)\<rparr>"

text \<open>While hosting, the module holds a \<^verbatim>\<open>LocalSyncManager\<close>.\<close>

definition sync_inv :: "sync \<Rightarrow> bool" where
  "sync_inv st \<longleftrightarrow> (isHosting st \<longrightarrow> localSyncManager st \<noteq> None)"

text \<open>Export followed at once by the import of what was exported.\<close>

definition roundtrip :: "timestamp \<Rightarrow> db \<Rightarrow> db" where
  "roundtrip now d = snd (importData (exportAllData now d) d)"

section \<open>Example states\<close>

text \<open>A clock that does not advance during one call of \<^verbatim>\<open>saveMachine\<close>.\<close>

definition clock_at :: "timestamp \<Rightarrow> saveClock" where
  "clock_at t = \<lparr>img_now = t, upd_now = t, crt_now = t\<rparr>"

text \<open>
  The store after \<^verbatim>\<open>addSubstation("A")\<close> at time 10 and
  \<^verbatim>\<open>saveMachine(1, 0, 0, "M", undefined, null)\<close> at time 20, from the empty database.
\<close>

definition db_one_device :: db where
  "db_one_device =
     snd (saveMachine 1 0 0 (Some [0x4D]) None None (clock_at 20)
            (snd (addSubstation [0x41] 10 initDB)))"

text \<open>
  The store after \<^verbatim>\<open>addSubstation("A")\<close> at time 10,
  \<^verbatim>\<open>saveMachine(1, 0, 0, "M", "i", "b")\<close> at time 20 and
  \<^verbatim>\<open>saveMachine(1, 0, 0, "M", "i", "c")\<close> at time 30, from the empty database: one
  device, for which two images were stored.
\<close>

definition db_device_with_images :: db where
  "db_device_with_images =
     snd (saveMachine 1 0 0 (Some [0x4D]) (Some [0x69]) (Some [0x63]) (clock_at 30)
       (snd (saveMachine 1 0 0 (Some [0x4D]) (Some [0x69]) (Some [0x62]) (clock_at 20)
          (snd (addSubstation [0x41] 10 initDB)))))"

text \<open>A snapshot as a peer may send it, with two devices at one cell of site 1.\<close>

definition snapshot_two_at_cell :: snapshot where
  "snapshot_two_at_cell =
     \<lparr>version = 1, exportDate = 0,
      snap_substations = [\<lparr>s_id = 1, s_name = [0x41], s_createdAt = 1\<rparr>],
      snap_machines =
        [\<lparr>m_id = 1, m_substationId = 1, m_positionX = 0, m_positionY = 0, m_name = [0x58],
          m_info = [], m_imageId = None, m_updatedAt = 2, m_createdAt = 2\<rparr>,
         \<lparr>m_id = 2, m_substationId = 1, m_positionX = 0, m_positionY = 0, m_name = [0x59],
          m_info = [], m_imageId = None, m_updatedAt = 3, m_createdAt = 3\<rparr>]\<rparr>"

text \<open>A snapshot that names two sites alike.\<close>

definition snapshot_duplicate :: snapshot where
  "snapshot_duplicate =
     \<lparr>version = 1, exportDate = 7,
      snap_substations = [\<lparr>s_id = 1, s_name = [0x42], s_createdAt = 1\<rparr>,
                          \<lparr>s_id = 2, s_name = [0x42], s_createdAt = 2\<rparr>],
      snap_machines = []\<rparr>"

text \<open>
  The module after \<^verbatim>\<open>requestSyncFrom("p")\<close>, \<^verbatim>\<open>requestSyncFrom("q")\<close>, the opening
  of the first session's channel, and \<^verbatim>\<open>startBroadcast()\<close>.
\<close>

definition sync_hosting_two :: sync where
  "sync_hosting_two =
     (let st = snd (requestSyncFrom [0x71] (snd (requestSyncFrom [0x70] (initSync [0x64]))))
      in snd (startBroadcast [0x31]
                (st\<lparr>syncClients := [dataChannel_onopen (syncClients st ! 0), syncClients st ! 1]\<rparr>)))"

section \<open>Properties of the store\<close>

subsection \<open>The import leaves the sync log alone\<close>

lemma import_substations_syncRecords:
  "import_substations xs d = Inr d' \<Longrightarrow>
     syncRecords d' = syncRecords d \<and> syncRecords_gen d' = syncRecords_gen d"
  by (induction xs arbitrary: d)
     (auto simp: substations_add_def split: sum.splits if_splits)

lemma import_machines_syncRecords:
  "syncRecords (import_machines ms d) = syncRecords d \<and>
   syncRecords_gen (import_machines ms d) = syncRecords_gen d"
  by (induction ms arbitrary: d) (auto simp: machines_add_def)

text \<open>
  C10. For every snapshot and every state of the database, the sync log read by
  \<^verbatim>\<open>getAllSyncRecords\<close> after \<^verbatim>\<open>importData\<close> is the one before it, and so is the key
  generator of the log, whether the import succeeds or fails.
\<close>

theorem importData_keeps_syncRecords:
  "getAllSyncRecords (snd (importData data d)) = getAllSyncRecords d \<and>
   syncRecords_gen (snd (importData data d)) = syncRecords_gen d"
proof (cases "import_substations (snap_substations data) (clear_stores d)")
  case (Inl e)
  then show ?thesis by (simp add: importData_def)
next
  case (Inr d1)
  from import_substations_syncRecords [OF Inr]
  have "syncRecords d1 = syncRecords d" "syncRecords_gen d1 = syncRecords_gen d"
    by (simp_all add: clear_stores_def)
  with Inr show ?thesis
    by (simp add: importData_def getAllSyncRecords_def import_machines_syncRecords)
qed

subsection \<open>Adding sites\<close>

lemma addSubstation_fresh:
  "trim n \<notin> site_names d \<Longrightarrow>
     addSubstation n t d =
       (Inr \<lparr>s_id = substations_gen d, s_name = trim n, s_createdAt = t\<rparr>,
        d\<lparr>substations := substations d @
             [\<lparr>s_id = substations_gen d, s_name = trim n, s_createdAt = t\<rparr>],
          substations_gen := Suc (substations_gen d)\<rparr>)"
  by (simp add: addSubstation_def substations_add_def site_names_def)

lemma addSubstation_present:
  "trim n \<in> site_names d \<Longrightarrow> addSubstation n t d = (Inl DuplicateName, d)"
  by (simp add: addSubstation_def substations_add_def site_names_def)

lemma site_names_addSubstation:
  "site_names (snd (addSubstation n t d)) = insert (trim n) (site_names d)"
  by (cases "trim n \<in> site_names d")
     (auto simp: addSubstation_fresh addSubstation_present, auto simp: site_names_def)

text \<open>
  C6. On a store that holds neither name, \<^verbatim>\<open>addSubstation\<close> of two names whose trimmed
  forms differ succeeds both times (with different ids). After \<^verbatim>\<open>addSubstation n1\<close>,
  whatever its outcome, \<^verbatim>\<open>addSubstation n2\<close> with the same trimmed name fails with
  \<^verbatim>\<open>DuplicateName\<close> and changes nothing. In general \<^verbatim>\<open>addSubstation\<close> fails with
  \<^verbatim>\<open>DuplicateName\<close> exactly when the trimmed name is already in the store, and
  succeeds otherwise.
\<close>

theorem addSubstation_twice:
  "(trim n1 \<noteq> trim n2 \<and> trim n1 \<notin> site_names d \<and> trim n2 \<notin> site_names d \<longrightarrow>
      (\<exists>s1 s2. fst (addSubstation n1 t1 d) = Inr s1 \<and> s_name s1 = trim n1 \<and>
               fst (addSubstation n2 t2 (snd (addSubstation n1 t1 d))) = Inr s2 \<and>
               s_name s2 = trim n2 \<and> s_id s1 \<noteq> s_id s2)) \<and>
   (trim n1 = trim n2 \<longrightarrow>
      addSubstation n2 t2 (snd (addSubstation n1 t1 d)) =
        (Inl DuplicateName, snd (addSubstation n1 t1 d))) \<and>
   (fst (addSubstation n2 t2 d) = Inl DuplicateName \<longleftrightarrow> trim n2 \<in> site_names d) \<and>
   (trim n2 \<notin> site_names d \<longrightarrow> (\<exists>s. fst (addSubstation n2 t2 d) = Inr s))"
proof (intro conjI impI)
  assume a: "trim n1 \<noteq> trim n2 \<and> trim n1 \<notin> site_names d \<and> trim n2 \<notin> site_names d"
  then have "trim n2 \<notin> site_names (snd (addSubstation n1 t1 d))"
    by (auto simp: site_names_addSubstation)
  from addSubstation_fresh [OF this] a
  show "\<exists>s1 s2. fst (addSubstation n1 t1 d) = Inr s1 \<and> s_name s1 = trim n1 \<and>
               fst (addSubstation n2 t2 (snd (addSubstation n1 t1 d))) = Inr s2 \<and>
               s_name s2 = trim n2 \<and> s_id s1 \<noteq> s_id s2"
    by (simp add: addSubstation_fresh)
next
  assume "trim n1 = trim n2"
  then have "trim n2 \<in> site_names (snd (addSubstation n1 t1 d))"
    by (simp add: site_names_addSubstation)
  then show "addSubstation n2 t2 (snd (addSubstation n1 t1 d)) =
        (Inl DuplicateName, snd (addSubstation n1 t1 d))"
    by (rule addSubstation_present)
next
  show "fst (addSubstation n2 t2 d) = Inl DuplicateName \<longleftrightarrow> trim n2 \<in> site_names d"
    by (cases "trim n2 \<in> site_names d") (simp_all add: addSubstation_fresh addSubstation_present)
next
  assume "trim n2 \<notin> site_names d"
  then show "\<exists>s. fst (addSubstation n2 t2 d) = Inr s"
    by (simp add: addSubstation_fresh)
qed

text \<open>
  On the empty store: \<^verbatim>\<open>"A"\<close> then \<^verbatim>\<open>" B"\<close> succeed; \<^verbatim>\<open>"B "\<close> then \<^verbatim>\<open>" B"\<close> fails
  the second time.
\<close>

theorem addSubstation_twice_witness:
  "trim [0x41] \<noteq> trim [0x20, 0x42] \<and> trim [0x41] \<notin> site_names initDB \<and>
   trim [0x20, 0x42] \<notin> site_names initDB \<and>
   (\<exists>s1 s2. fst (addSubstation [0x41] 1 initDB) = Inr s1 \<and> s_name s1 = trim [0x41] \<and>
            fst (addSubstation [0x20, 0x42] 2 (snd (addSubstation [0x41] 1 initDB))) = Inr s2 \<and>
            s_name s2 = trim [0x20, 0x42] \<and> s_id s1 \<noteq> s_id s2) \<and>
   trim [0x42, 0x20] = trim [0x20, 0x42] \<and>
   addSubstation [0x20, 0x42] 2 (snd (addSubstation [0x42, 0x20] 1 initDB)) =
     (Inl DuplicateName, snd (addSubstation [0x42, 0x20] 1 initDB))"
proof -
  have h: "trim [0x41] \<noteq> trim [0x20, 0x42] \<and> trim [0x41] \<notin> site_names initDB \<and>
           trim [0x20, 0x42] \<notin> site_names initDB"
    by (simp add: trim_def is_ws_def site_names_def initDB_def)
  have e: "trim [0x42, 0x20] = trim [0x20, 0x42]"
    by (simp add: trim_def is_ws_def)
  from addSubstation_twice [of "[0x41]" "[0x20, 0x42]" initDB 1 2] h
       addSubstation_twice [of "[0x42, 0x20]" "[0x20, 0x42]" initDB 1 2] e
  show ?thesis by blast
qed

subsection \<open>Atomicity of the import\<close>

lemma substations_add_error: "substations_add s d = Inl e \<Longrightarrow> e = ConstraintError"
  by (simp add: substations_add_def split: if_splits)

lemma site_names_substations_add:
  "substations_add s d = Inr r \<Longrightarrow> site_names (snd r) = insert (s_name s) (site_names d)"
  by (auto simp: substations_add_def site_names_def split: if_splits)

lemma substations_add_fails_iff:
  "(\<exists>e. substations_add s d = Inl e) \<longleftrightarrow> s_name s \<in> site_names d"
  by (simp add: substations_add_def site_names_def)

lemma import_substations_error: "import_substations xs d = Inl e \<Longrightarrow> e = ConstraintError"
  by (induction xs arbitrary: d) (auto split: sum.splits dest: substations_add_error)

lemma import_substations_fails_iff:
  "(\<exists>e. import_substations xs d = Inl e) \<longleftrightarrow>
     \<not> (distinct (map s_name xs) \<and> set (map s_name xs) \<inter> site_names d = {})"
proof (induction xs arbitrary: d)
  case Nil
  show ?case by simp
next
  case (Cons x xs)
  show ?case
  proof (cases "substations_add x d")
    case (Inl e)
    then have "s_name x \<in> site_names d"
      using substations_add_fails_iff by blast
    with Inl show ?thesis by simp
  next
    case (Inr r)
    then have "s_name x \<notin> site_names d"
      using substations_add_fails_iff [of x d] by auto
    moreover have "site_names (snd r) = insert (s_name x) (site_names d)"
      using Inr by (rule site_names_substations_add)
    ultimately show ?thesis
      using Inr Cons.IH [of "snd r"] by auto
  qed
qed

lemma importData_outcomes:
  "importData data d = (Inl ConstraintError, d) \<or> fst (importData data d) = Inr True"
  by (auto simp: importData_def split: sum.splits dest: import_substations_error)

lemma importData_fails_iff:
  "(\<exists>e. fst (importData data d) = Inl e) \<longleftrightarrow> \<not> distinct (map s_name (snap_substations data))"
proof -
  have "(\<exists>e. fst (importData data d) = Inl e) \<longleftrightarrow>
        (\<exists>e. import_substations (snap_substations data) (clear_stores d) = Inl e)"
    by (auto simp: importData_def split: sum.splits)
  also have "\<dots> \<longleftrightarrow> \<not> distinct (map s_name (snap_substations data))"
    by (simp add: import_substations_fails_iff) (simp add: site_names_def clear_stores_def)
  finally show ?thesis .
qed

text \<open>
  C2. An insert of the import fails when the \<^verbatim>\<open>add\<close> loop over the snapshot's sites,
  run on the cleared stores, stops with an error (the \<^verbatim>\<open>machines\<close> store has no unique
  index, so its \<^verbatim>\<open>add\<close> requests cannot fail). Then, for every snapshot and every
  prior state, \<^verbatim>\<open>importData\<close> fails with that error, a \<^verbatim>\<open>ConstraintError\<close>, and the
  database afterwards is the database before: \<^verbatim>\<open>getAllSubstations\<close>,
  \<^verbatim>\<open>getMachinesBySubstationId\<close> and the images are as they were, the clears and the
  inserts made before the failing one included.
\<close>

theorem importData_atomic:
  "import_substations (snap_substations data) (clear_stores d) = Inl e \<Longrightarrow>
     importData data d = (Inl ConstraintError, d) \<and>
     getAllSubstations (snd (importData data d)) = getAllSubstations d \<and>
     (\<forall>s. getMachinesBySubstationId s (snd (importData data d)) =
          getMachinesBySubstationId s d) \<and>
     images (snd (importData data d)) = images d"
proof -
  assume a: "import_substations (snap_substations data) (clear_stores d) = Inl e"
  then have "e = ConstraintError" by (rule import_substations_error)
  with a show ?thesis by (simp add: importData_def)
qed

lemma db_one_device_eq:
  "db_one_device =
     \<lparr>substations = [\<lparr>s_id = 1, s_name = [0x41], s_createdAt = 10\<rparr>], substations_gen = 2,
      machines = [\<lparr>m_id = 1, m_substationId = 1, m_positionX = 0, m_positionY = 0,
                   m_name = [0x4D], m_info = [], m_imageId = None, m_updatedAt = 20,
                   m_createdAt = 20\<rparr>],
      machines_gen = 2, images = [], images_gen = 1, syncRecords = [], syncRecords_gen = 1\<rparr>"
  by (simp add: db_one_device_def saveMachine_def addSubstation_def substations_add_def
        initDB_def trim_def is_ws_def getMachineByPosition_def getMachinesBySubstationId_def
        machines_add_def clock_at_def or_empty_def Let_def)

text \<open>
  The first site of \<open>snapshot_duplicate\<close> is added, the second is refused; the site and
  the device of \<open>db_one_device\<close> are there afterwards.
\<close>

theorem importData_atomic_witness:
  "import_substations (snap_substations snapshot_duplicate) (clear_stores db_one_device)
     = Inl ConstraintError \<and>
   importData snapshot_duplicate db_one_device = (Inl ConstraintError, db_one_device) \<and>
   getAllSubstations (snd (importData snapshot_duplicate db_one_device)) =
     [\<lparr>s_id = 1, s_name = [0x41], s_createdAt = 10\<rparr>] \<and>
   getMachinesBySubstationId 1 (snd (importData snapshot_duplicate db_one_device)) =
     [\<lparr>m_id = 1, m_substationId = 1, m_positionX = 0, m_positionY = 0, m_name = [0x4D],
       m_info = [], m_imageId = None, m_updatedAt = 20, m_createdAt = 20\<rparr>]"
proof -
  have h: "import_substations (snap_substations snapshot_duplicate) (clear_stores db_one_device)
             = Inl ConstraintError"
    by (simp add: snapshot_duplicate_def substations_add_def clear_stores_def)
  have g: "getAllSubstations db_one_device = [\<lparr>s_id = 1, s_name = [0x41], s_createdAt = 10\<rparr>]"
    by (simp add: getAllSubstations_def db_one_device_eq)
  have m: "getMachinesBySubstationId 1 db_one_device =
     [\<lparr>m_id = 1, m_substationId = 1, m_positionX = 0, m_positionY = 0, m_name = [0x4D],
       m_info = [], m_imageId = None, m_updatedAt = 20, m_createdAt = 20\<rparr>]"
    by (simp add: getMachinesBySubstationId_def db_one_device_eq)
  from importData_atomic [OF h] h g m show ?thesis by simp
qed

subsection \<open>Deleting a site\<close>

lemma machines_deleteMachine:
  "machines (snd (deleteMachine k d)) = filter (\<lambda>r. m_id r \<noteq> k) (machines d)"
  by (simp add: deleteMachine_def machines_delete_def images_delete_def Let_def
        split: option.splits)

lemma images_deleteMachine_subset:
  "set (images (snd (deleteMachine k d))) \<subseteq> set (images d)"
  by (auto simp: deleteMachine_def machines_delete_def images_delete_def Let_def
        split: option.splits)

lemma substations_deleteMachine:
  "substations (snd (deleteMachine k d)) = substations d"
  by (simp add: deleteMachine_def machines_delete_def images_delete_def Let_def
        split: option.splits)

lemma images_deleteMachine_pointer:
  "machines_get k d = Some m \<Longrightarrow> m_imageId m = Some i \<Longrightarrow> i \<noteq> 0 \<Longrightarrow>
     i \<notin> i_id ` set (images (snd (deleteMachine k d)))"
  by (auto simp: deleteMachine_def machines_delete_def images_delete_def Let_def)

lemma find_distinct_key:
  "distinct (map f xs) \<Longrightarrow> x \<in> set xs \<Longrightarrow> find (\<lambda>r. f r = f x) xs = Some x"
  by (induction xs) (auto simp: image_iff)

lemma machines_get_member:
  "distinct (map m_id (machines d)) \<Longrightarrow> m \<in> set (machines d) \<Longrightarrow>
     machines_get (m_id m) d = Some m"
  by (simp add: machines_get_def find_distinct_key)

lemma machines_loop:
  "machines (deleteMachines_loop ms d) = filter (\<lambda>r. m_id r \<notin> m_id ` set ms) (machines d)"
  by (induction ms arbitrary: d) (auto simp: machines_deleteMachine intro: filter_cong)

lemma images_loop_subset:
  "set (images (deleteMachines_loop ms d)) \<subseteq> set (images d)"
proof (induction ms arbitrary: d)
  case Nil
  show ?case by simp
next
  case (Cons m ms)
  have "set (images (deleteMachines_loop ms (snd (deleteMachine (m_id m) d))))
          \<subseteq> set (images (snd (deleteMachine (m_id m) d)))"
    by (rule Cons.IH)
  also have "\<dots> \<subseteq> set (images d)" by (rule images_deleteMachine_subset)
  finally show ?case by simp
qed

lemma substations_loop: "substations (deleteMachines_loop ms d) = substations d"
  by (induction ms arbitrary: d) (simp_all add: substations_deleteMachine)

lemma images_loop_pointer:
  "distinct (map m_id (machines d)) \<Longrightarrow> m \<in> set ms \<Longrightarrow> m \<in> set (machines d) \<Longrightarrow>
   m_imageId m = Some i \<Longrightarrow> i \<noteq> 0 \<Longrightarrow>
     i \<notin> i_id ` set (images (deleteMachines_loop ms d))"
proof (induction ms arbitrary: d)
  case Nil
  then show ?case by simp
next
  case (Cons x ms)
  let ?d' = "snd (deleteMachine (m_id x) d)"
  show ?case
  proof (cases "m_id x = m_id m")
    case True
    with Cons.prems have "machines_get (m_id x) d = Some m"
      by (simp add: machines_get_member)
    from images_deleteMachine_pointer [OF this Cons.prems(4,5)]
    have "i \<notin> i_id ` set (images ?d')" .
    moreover have "set (images (deleteMachines_loop ms ?d')) \<subseteq> set (images ?d')"
      by (rule images_loop_subset)
    ultimately show ?thesis by auto
  next
    case False
    with Cons.prems have "m \<in> set ms" "m \<in> set (machines ?d')"
      by (auto simp: machines_deleteMachine)
    moreover from Cons.prems(1) have "distinct (map m_id (machines ?d'))"
      by (simp add: machines_deleteMachine distinct_map_filter)
    ultimately have "i \<notin> i_id ` set (images (deleteMachines_loop ms ?d'))"
      using Cons.prems(4,5) by (intro Cons.IH)
    then show ?thesis by simp
  qed
qed

text \<open>
  What \<^verbatim>\<open>deleteSubstation\<close> does on every well-formed database: it succeeds;
  afterwards the site has no devices and no row, every image that a device of the site
  pointed to by its \<^verbatim>\<open>imageId\<close> is gone from the \<^verbatim>\<open>images\<close> store, and the devices
  of the other sites are as they were.
\<close>

lemma deleteSubstation_cascade:
  "wf_db d \<Longrightarrow>
     fst (deleteSubstation k d) \<and>
     getMachinesBySubstationId k (snd (deleteSubstation k d)) = [] \<and>
     k \<notin> s_id ` set (getAllSubstations (snd (deleteSubstation k d))) \<and>
     (\<forall>m \<in> set (getMachinesBySubstationId k d). \<forall>i. m_imageId m = Some i \<longrightarrow>
        i \<notin> i_id ` set (images (snd (deleteSubstation k d)))) \<and>
     (\<forall>k'. k' \<noteq> k \<longrightarrow> getMachinesBySubstationId k' (snd (deleteSubstation k d)) =
        getMachinesBySubstationId k' d)"
proof (intro conjI ballI allI impI)
  assume wf: "wf_db d"
  let ?ms = "getMachinesBySubstationId k d"
  let ?d' = "snd (deleteSubstation k d)"
  have m': "machines ?d' = filter (\<lambda>r. m_id r \<notin> m_id ` set ?ms) (machines d)"
    by (simp add: deleteSubstation_def substations_delete_def deleteMachinesBySubstationId_def
          machines_loop)
  have i': "images ?d' = images (deleteMachines_loop ?ms d)"
    by (simp add: deleteSubstation_def substations_delete_def deleteMachinesBySubstationId_def)
  show "fst (deleteSubstation k d)" by (simp add: deleteSubstation_def)
  show "getMachinesBySubstationId k ?d' = []"
    unfolding getMachinesBySubstationId_def m'
    by (auto simp: filter_empty_conv getMachinesBySubstationId_def)
  show "k \<notin> s_id ` set (getAllSubstations ?d')"
    by (auto simp: getAllSubstations_def deleteSubstation_def substations_delete_def)
  show "getMachinesBySubstationId k' ?d' = getMachinesBySubstationId k' d" if "k' \<noteq> k" for k'
  proof -
    from wf have "inj_on m_id (set (machines d))"
      by (simp add: wf_db_def distinct_map)
    then have "m_id x \<notin> m_id ` set ?ms"
      if "x \<in> set (machines d)" "m_substationId x = k'" for x
      using that \<open>k' \<noteq> k\<close> by (auto simp: getMachinesBySubstationId_def dest: inj_onD)
    then show ?thesis
      unfolding getMachinesBySubstationId_def m' by (auto intro: filter_cong)
  qed
  show "i \<notin> i_id ` set (images ?d')" if m: "m \<in> set ?ms" and p: "m_imageId m = Some i" for m i
  proof (cases "i = 0")
    case True
    from wf have "\<forall>x \<in> set (images d). 0 < i_id x"
      by (auto simp: wf_db_def list_all_iff)
    moreover have "set (images ?d') \<subseteq> set (images d)"
      unfolding i' by (rule images_loop_subset)
    ultimately show ?thesis using True by force
  next
    case False
    from wf have "distinct (map m_id (machines d))" by (simp add: wf_db_def)
    moreover from m have "m \<in> set (machines d)" by (simp add: getMachinesBySubstationId_def)
    ultimately show ?thesis
      unfolding i' using m p False by (intro images_loop_pointer)
  qed
qed

subsection \<open>Saving a device\<close>

lemma machines_images_add [simp]:
  "machines (snd (images_add i d)) = machines d"
  "machines_gen (snd (images_add i d)) = machines_gen d"
  "substations (snd (images_add i d)) = substations d"
  "substations_gen (snd (images_add i d)) = substations_gen d"
  by (simp_all add: images_add_def)

lemma find_SomeD: "find P xs = Some x \<Longrightarrow> x \<in> set xs \<and> P x"
  by (induction xs) (auto split: if_splits)

lemma getMachineByPosition_SomeD:
  "getMachineByPosition s x y d = Some e \<Longrightarrow>
     e \<in> set (machines d) \<and> m_substationId e = s \<and> m_positionX e = x \<and> m_positionY e = y"
  by (auto simp: getMachineByPosition_def getMachinesBySubstationId_def dest: find_SomeD)

lemma saveMachine_new:
  assumes "getMachineByPosition s x y d = None"
  shows "fst (saveMachine s x y n i img clk d) =
           \<lparr>m_id = machines_gen d, m_substationId = s, m_positionX = x, m_positionY = y,
            m_name = or_empty n, m_info = or_empty i, m_imageId = None,
            m_updatedAt = upd_now clk, m_createdAt = crt_now clk\<rparr>"
    and "machines (snd (saveMachine s x y n i img clk d)) =
           machines d @ [fst (saveMachine s x y n i img clk d)]"
    and "machines_gen (snd (saveMachine s x y n i img clk d)) = Suc (machines_gen d)"
  using assms
  by (auto simp: saveMachine_def Let_def machines_add_def getMachineByPosition_def
        getMachinesBySubstationId_def split: option.splits)

lemma saveMachine_existing:
  assumes "getMachineByPosition s x y d = Some e"
  shows "fst (saveMachine s x y n i img clk d) =
           \<lparr>m_id = m_id e, m_substationId = s, m_positionX = x, m_positionY = y,
            m_name = or_empty n, m_info = or_empty i, m_imageId = None,
            m_updatedAt = upd_now clk, m_createdAt = m_createdAt e\<rparr>"
    and "machines (snd (saveMachine s x y n i img clk d)) =
           map (\<lambda>r. if m_id r = m_id e then fst (saveMachine s x y n i img clk d) else r)
             (machines d)"
    and "machines_gen (snd (saveMachine s x y n i img clk d)) = machines_gen d \<or>
         machines_gen d \<le> m_id e"
proof -
  from assms have "e \<in> set (machines d)"
    by (simp add: getMachineByPosition_SomeD)
  then have mem: "m_id e \<in> m_id ` set (machines d)" by simp
  show "fst (saveMachine s x y n i img clk d) =
           \<lparr>m_id = m_id e, m_substationId = s, m_positionX = x, m_positionY = y,
            m_name = or_empty n, m_info = or_empty i, m_imageId = None,
            m_updatedAt = upd_now clk, m_createdAt = m_createdAt e\<rparr>"
    using assms by (simp add: saveMachine_def Let_def machines_put_def)
  show "machines (snd (saveMachine s x y n i img clk d)) =
           map (\<lambda>r. if m_id r = m_id e then fst (saveMachine s x y n i img clk d) else r)
             (machines d)"
    using assms mem
    by (auto simp: saveMachine_def Let_def machines_put_def split: option.splits)
  show "machines_gen (snd (saveMachine s x y n i img clk d)) = machines_gen d \<or>
         machines_gen d \<le> m_id e"
    using assms
    by (auto simp: saveMachine_def Let_def machines_put_def max_def split: option.splits)
qed

lemma saveMachine_other_stores:
  "substations (snd (saveMachine s x y n i img clk d)) = substations d"
  "substations_gen (snd (saveMachine s x y n i img clk d)) = substations_gen d"
  "syncRecords (snd (saveMachine s x y n i img clk d)) = syncRecords d"
  by (auto simp: saveMachine_def Let_def machines_put_def machines_add_def images_add_def
        split: option.splits)

lemma saveMachine_images:
  "images (snd (saveMachine s x y n i img clk d)) =
     (if img = None \<or> img = Some [] then images d
      else images d @ [\<lparr>i_id = images_gen d,
                         i_machineId = map_option m_id (getMachineByPosition s x y d),
                         i_data = the img, i_timestamp = img_now clk\<rparr>])"
  "images_gen (snd (saveMachine s x y n i img clk d)) =
     (if img = None \<or> img = Some [] then images_gen d else Suc (images_gen d))"
  by (auto simp: saveMachine_def Let_def machines_put_def machines_add_def images_add_def
        split: option.splits)

lemma saveMachine_imageId_None:
  "m_imageId (fst (saveMachine s x y n i img clk d)) = None"
  by (cases "getMachineByPosition s x y d") (simp_all add: saveMachine_new saveMachine_existing)

lemma wf_db_saveMachine:
  assumes "wf_db d"
  shows "wf_db (snd (saveMachine s x y n i img clk d))"
proof (cases "getMachineByPosition s x y d")
  case None
  from saveMachine_new [OF None, of n i img clk] assms show ?thesis
    by (auto simp: wf_db_def saveMachine_other_stores saveMachine_images list_all_iff
          intro: less_SucI)
next
  case (Some e)
  then have e: "e \<in> set (machines d)"
    by (simp add: getMachineByPosition_SomeD)
  with assms have b: "0 < m_id e" "m_id e < machines_gen d"
    by (auto simp: wf_db_def list_all_iff)
  let ?m = "fst (saveMachine s x y n i img clk d)"
  have id: "m_id ?m = m_id e" by (simp add: saveMachine_existing(1) [OF Some])
  have ids: "map m_id (machines (snd (saveMachine s x y n i img clk d))) = map m_id (machines d)"
    unfolding saveMachine_existing(2) [OF Some] using id by (induction "machines d") auto
  have gen: "machines_gen (snd (saveMachine s x y n i img clk d)) = machines_gen d"
    using saveMachine_existing(3) [OF Some, of n i img clk] b by auto
  have bounds: "list_all (\<lambda>m. 0 < m_id m \<and> m_id m < machines_gen d)
     (machines (snd (saveMachine s x y n i img clk d)))"
    using assms b id unfolding saveMachine_existing(2) [OF Some]
    by (auto simp: wf_db_def list_all_iff)
  from assms ids gen bounds show ?thesis
    by (auto simp: wf_db_def saveMachine_other_stores saveMachine_images list_all_iff
          intro: less_SucI)
qed

lemma find_filter: "find P (filter Q xs) = find (\<lambda>x. Q x \<and> P x) xs"
  by (induction xs) simp_all

lemma machines_at_filter:
  "machines_at s x y d =
     filter (\<lambda>m. m_substationId m = s \<and> m_positionX m = x \<and> m_positionY m = y) (machines d)"
  by (simp add: machines_at_def getMachinesBySubstationId_def conj_commute)

lemma getMachineByPosition_find:
  "getMachineByPosition s x y d =
     find (\<lambda>m. m_substationId m = s \<and> m_positionX m = x \<and> m_positionY m = y) (machines d)"
  by (simp add: getMachineByPosition_def getMachinesBySubstationId_def find_filter)

lemma find_None_filter: "find P xs = None \<Longrightarrow> filter P xs = []"
  by (induction xs) (auto split: if_splits)

lemma find_Some_filter: "find P xs = Some e \<Longrightarrow> length (filter P xs) \<le> 1 \<Longrightarrow> filter P xs = [e]"
  by (induction xs) (auto split: if_splits)

lemma filter_single_find: "filter P xs = [e] \<Longrightarrow> find P xs = Some e"
  by (induction xs) (auto split: if_splits dest: find_None_filter)

lemma filter_replace_key:
  assumes "distinct (map f xs)" "e \<in> set xs" "P e" "P m"
  shows "filter P (map (\<lambda>r. if f r = f e then m else r) xs) =
         map (\<lambda>r. if f r = f e then m else r) (filter P xs)"
proof -
  from assms(1) have inj: "inj_on f (set xs)" by (simp add: distinct_map)
  have "P (if f r = f e then m else r) = P r" if "r \<in> set xs" for r
    using that inj assms(2-4) by (auto dest: inj_onD)
  then show ?thesis by (induction xs) auto
qed

lemma saveMachine_cell:
  assumes wf: "wf_db d" and one: "length (machines_at s x y d) \<le> 1"
  shows "machines_at s x y (snd (saveMachine s x y n i img clk d)) =
           [fst (saveMachine s x y n i img clk d)]"
proof (cases "getMachineByPosition s x y d")
  case None
  then have "machines_at s x y d = []"
    by (simp add: machines_at_filter getMachineByPosition_find find_None_filter)
  then show ?thesis
    using saveMachine_new [OF None, of n i img clk]
    by (simp add: machines_at_filter)
next
  case (Some e)
  let ?P = "\<lambda>m. m_substationId m = s \<and> m_positionX m = x \<and> m_positionY m = y"
  let ?m = "fst (saveMachine s x y n i img clk d)"
  from Some one have cell: "filter ?P (machines d) = [e]"
    by (simp add: machines_at_filter getMachineByPosition_find find_Some_filter)
  from Some have e: "e \<in> set (machines d)" "?P e"
    by (simp_all add: getMachineByPosition_SomeD)
  have m: "?P ?m" by (simp add: saveMachine_existing(1) [OF Some])
  from wf have "distinct (map m_id (machines d))" by (simp add: wf_db_def)
  from filter_replace_key [of m_id, OF this e m]
  have "filter ?P (map (\<lambda>r. if m_id r = m_id e then ?m else r) (machines d)) =
        map (\<lambda>r. if m_id r = m_id e then ?m else r) (filter ?P (machines d))" .
  also have "\<dots> = [?m]" by (simp add: cell)
  finally show ?thesis
    by (simp add: machines_at_filter saveMachine_existing(2) [OF Some])
qed

text \<open>
  C3, as the code has it. On a well-formed database with at most one device at the cell
  \<open>(s, x, y)\<close>, two calls of \<^verbatim>\<open>saveMachine\<close> for that cell leave exactly one device
  row at the cell, the row the second call returns; it has the id and the
  \<^verbatim>\<open>createdAt\<close> of the device the first call returned and the name and info of the
  second call. Its \<^verbatim>\<open>updatedAt\<close> is the clock reading of the second call, as the first
  call's was the reading of the first: it is greater exactly when the clock has
  advanced between the two readings.
\<close>

theorem saveMachine_twice:
  assumes "wf_db d" and "length (machines_at s x y d) \<le> 1"
  shows "machines_at s x y
           (snd (saveMachine s x y n2 i2 img2 clk2 (snd (saveMachine s x y n1 i1 img1 clk1 d))))
           = [fst (saveMachine s x y n2 i2 img2 clk2 (snd (saveMachine s x y n1 i1 img1 clk1 d)))]
       \<and> m_id (fst (saveMachine s x y n2 i2 img2 clk2 (snd (saveMachine s x y n1 i1 img1 clk1 d))))
           = m_id (fst (saveMachine s x y n1 i1 img1 clk1 d))
       \<and> m_createdAt (fst (saveMachine s x y n2 i2 img2 clk2 (snd (saveMachine s x y n1 i1 img1 clk1 d))))
           = m_createdAt (fst (saveMachine s x y n1 i1 img1 clk1 d))
       \<and> m_name (fst (saveMachine s x y n2 i2 img2 clk2 (snd (saveMachine s x y n1 i1 img1 clk1 d))))
           = or_empty n2
       \<and> m_info (fst (saveMachine s x y n2 i2 img2 clk2 (snd (saveMachine s x y n1 i1 img1 clk1 d))))
           = or_empty i2
       \<and> m_updatedAt (fst (saveMachine s x y n1 i1 img1 clk1 d)) = upd_now clk1
       \<and> m_updatedAt (fst (saveMachine s x y n2 i2 img2 clk2 (snd (saveMachine s x y n1 i1 img1 clk1 d))))
           = upd_now clk2
       \<and> (m_updatedAt (fst (saveMachine s x y n1 i1 img1 clk1 d))
            < m_updatedAt (fst (saveMachine s x y n2 i2 img2 clk2
                                  (snd (saveMachine s x y n1 i1 img1 clk1 d))))
          \<longleftrightarrow> upd_now clk1 < upd_now clk2)"
proof -
  let ?r1 = "saveMachine s x y n1 i1 img1 clk1 d"
  let ?r2 = "saveMachine s x y n2 i2 img2 clk2 (snd ?r1)"
  have c1: "machines_at s x y (snd ?r1) = [fst ?r1]"
    using assms by (rule saveMachine_cell)
  have wf1: "wf_db (snd ?r1)"
    using assms(1) by (rule wf_db_saveMachine)
  from c1 have found: "getMachineByPosition s x y (snd ?r1) = Some (fst ?r1)"
    by (simp add: machines_at_filter getMachineByPosition_find filter_single_find)
  have c2: "machines_at s x y (snd ?r2) = [fst ?r2]"
    using wf1 c1 by (intro saveMachine_cell) simp_all
  have u1: "m_updatedAt (fst ?r1) = upd_now clk1"
    by (cases "getMachineByPosition s x y d") (simp_all add: saveMachine_new saveMachine_existing)
  from c2 u1 show ?thesis
    by (simp add: saveMachine_existing(1) [OF found])
qed

lemma wf_db_initDB: "wf_db initDB"
  by (simp add: wf_db_def initDB_def)

text \<open>
  From the empty database, with the clock at 5 for the first call and at 9 for the
  second: one row, id 1, created at 5, updated at 9.
\<close>

theorem saveMachine_twice_witness:
  "wf_db initDB \<and> length (machines_at 1 0 0 initDB) \<le> 1 \<and>
   machines_at 1 0 0
     (snd (saveMachine 1 0 0 (Some [0x4E]) None None (clock_at 9)
        (snd (saveMachine 1 0 0 (Some [0x4D]) None None (clock_at 5) initDB))))
     = [fst (saveMachine 1 0 0 (Some [0x4E]) None None (clock_at 9)
          (snd (saveMachine 1 0 0 (Some [0x4D]) None None (clock_at 5) initDB)))] \<and>
   m_id (fst (saveMachine 1 0 0 (Some [0x4E]) None None (clock_at 9)
          (snd (saveMachine 1 0 0 (Some [0x4D]) None None (clock_at 5) initDB))))
     = m_id (fst (saveMachine 1 0 0 (Some [0x4D]) None None (clock_at 5) initDB)) \<and>
   m_updatedAt (fst (saveMachine 1 0 0 (Some [0x4D]) None None (clock_at 5) initDB))
     < m_updatedAt (fst (saveMachine 1 0 0 (Some [0x4E]) None None (clock_at 9)
          (snd (saveMachine 1 0 0 (Some [0x4D]) None None (clock_at 5) initDB))))"
proof -
  have h: "length (machines_at 1 0 0 initDB) \<le> 1"
    by (simp add: machines_at_def getMachinesBySubstationId_def initDB_def)
  have c: "upd_now (clock_at 5) < upd_now (clock_at 9)"
    by (simp add: clock_at_def)
  from saveMachine_twice [OF wf_db_initDB h, of "Some [0x4E]" None None "clock_at 9"
         "Some [0x4D]" None None "clock_at 5"] wf_db_initDB h c
  show ?thesis by simp
qed

text \<open>
  C3 as the spec states it, that \<^verbatim>\<open>updatedAt\<close> is strictly greater after the
  second call, fails when both calls read the same clock value: from the empty database,
  two calls at time 5 return devices whose \<^verbatim>\<open>updatedAt\<close> are both 5.
\<close>

theorem saveMachine_updatedAt_not_strict:
  "\<not> m_updatedAt (fst (saveMachine 1 0 0 None None None (clock_at 5) initDB))
      < m_updatedAt (fst (saveMachine 1 0 0 None None None (clock_at 5)
                            (snd (saveMachine 1 0 0 None None None (clock_at 5) initDB))))"
  by (simp add: saveMachine_def getMachineByPosition_def getMachinesBySubstationId_def
        machines_add_def machines_put_def initDB_def clock_at_def or_empty_def Let_def)

subsection \<open>The image of a saved device\<close>

text \<open>
  What \<^verbatim>\<open>saveMachine\<close> does with a non-empty \<^verbatim>\<open>imageData\<close>, for every database: one
  image row is appended, whose \<^verbatim>\<open>machineId\<close> is the id of the device found at the cell
  before the call, and undefined when there was none; the device returned, and with it
  the row stored, has no \<^verbatim>\<open>imageId\<close>.
\<close>

lemma saveMachine_with_image:
  "blob \<noteq> [] \<Longrightarrow>
     images (snd (saveMachine s x y n i (Some blob) clk d)) =
       images d @ [\<lparr>i_id = images_gen d,
                    i_machineId = map_option m_id (getMachineByPosition s x y d),
                    i_data = blob, i_timestamp = img_now clk\<rparr>] \<and>
     m_imageId (fst (saveMachine s x y n i (Some blob) clk d)) = None"
  by (simp add: saveMachine_images saveMachine_imageId_None)

text \<open>
  C4, at \<^verbatim>\<open>saveMachine(1, 0, 0, "M", "i", "b")\<close> on the empty database with the clock at
  5: the image row 1 is stored without a \<^verbatim>\<open>machineId\<close>, and the device returned and
  stored has \<^verbatim>\<open>imageId\<close> null.
\<close>

theorem saveMachine_image_not_linked:
  "saveMachine 1 0 0 (Some [0x4D]) (Some [0x69]) (Some [0x62]) (clock_at 5) initDB =
     (\<lparr>m_id = 1, m_substationId = 1, m_positionX = 0, m_positionY = 0, m_name = [0x4D],
       m_info = [0x69], m_imageId = None, m_updatedAt = 5, m_createdAt = 5\<rparr>,
      \<lparr>substations = [], substations_gen = 1,
       machines = [\<lparr>m_id = 1, m_substationId = 1, m_positionX = 0, m_positionY = 0,
                    m_name = [0x4D], m_info = [0x69], m_imageId = None, m_updatedAt = 5,
                    m_createdAt = 5\<rparr>],
       machines_gen = 2,
       images = [\<lparr>i_id = 1, i_machineId = None, i_data = [0x62], i_timestamp = 5\<rparr>],
       images_gen = 2, syncRecords = [], syncRecords_gen = 1\<rparr>)"
  by (simp add: saveMachine_def getMachineByPosition_def getMachinesBySubstationId_def
        machines_add_def images_add_def initDB_def clock_at_def or_empty_def Let_def)

subsection \<open>Images left behind by deleting a site\<close>

text \<open>
  \<^verbatim>\<open>deleteMachine\<close> finds the image of a device through the device's \<^verbatim>\<open>imageId\<close>,
  which \<^verbatim>\<open>saveMachine\<close> never sets. While no device row carries an \<^verbatim>\<open>imageId\<close>, a
  state that \<^verbatim>\<open>saveMachine\<close> keeps, deleting devices and sites deletes no image.
\<close>

lemma no_pointer_saveMachine:
  assumes "no_pointer d"
  shows "no_pointer (snd (saveMachine s x y n i img clk d))"
proof (cases "getMachineByPosition s x y d")
  case None
  from saveMachine_new [OF None, of n i img clk] assms show ?thesis
    by (simp add: no_pointer_def)
next
  case (Some e)
  from saveMachine_existing(1,2) [OF Some, of n i img clk] assms show ?thesis
    by (auto simp: no_pointer_def list_all_iff)
qed

lemma no_pointer_deleteMachine:
  assumes "no_pointer d"
  shows "images (snd (deleteMachine k d)) = images d \<and> no_pointer (snd (deleteMachine k d))"
proof -
  have "m_imageId m = None" if "machines_get k d = Some m" for m
    using that assms by (auto simp: machines_get_def no_pointer_def list_all_iff dest: find_SomeD)
  with assms show ?thesis
    by (auto simp: deleteMachine_def machines_delete_def no_pointer_def list_all_iff Let_def
          split: option.splits)
qed

lemma no_pointer_deleteMachines_loop:
  "no_pointer d \<Longrightarrow> images (deleteMachines_loop ms d) = images d"
  by (induction ms arbitrary: d) (simp_all add: no_pointer_deleteMachine)

lemma no_pointer_deleteSubstation:
  "no_pointer d \<Longrightarrow> images (snd (deleteSubstation k d)) = images d"
  by (simp add: deleteSubstation_def substations_delete_def deleteMachinesBySubstationId_def
        no_pointer_deleteMachines_loop)

lemma db_device_with_images_eq:
  "db_device_with_images =
     \<lparr>substations = [\<lparr>s_id = 1, s_name = [0x41], s_createdAt = 10\<rparr>], substations_gen = 2,
      machines = [\<lparr>m_id = 1, m_substationId = 1, m_positionX = 0, m_positionY = 0,
                   m_name = [0x4D], m_info = [0x69], m_imageId = None, m_updatedAt = 30,
                   m_createdAt = 20\<rparr>],
      machines_gen = 2,
      images = [\<lparr>i_id = 1, i_machineId = None, i_data = [0x62], i_timestamp = 20\<rparr>,
                \<lparr>i_id = 2, i_machineId = Some 1, i_data = [0x63], i_timestamp = 30\<rparr>],
      images_gen = 3, syncRecords = [], syncRecords_gen = 1\<rparr>"
  by (simp add: db_device_with_images_def saveMachine_def addSubstation_def
        substations_add_def initDB_def trim_def is_ws_def getMachineByPosition_def
        getMachinesBySubstationId_def machines_add_def machines_put_def images_add_def
        clock_at_def or_empty_def Let_def)

text \<open>
  C5, at \<open>db_device_with_images\<close>: site 1 has one device, saved twice with an image, and
  the \<^verbatim>\<open>images\<close> store holds the two images, the second with the device's id as
  \<^verbatim>\<open>machineId\<close>. After \<^verbatim>\<open>deleteSubstation(1)\<close> the site and its device are gone and
  both image rows are still stored.
\<close>

theorem deleteSubstation_leaves_images:
  "getAllSubstations db_device_with_images =
     [\<lparr>s_id = 1, s_name = [0x41], s_createdAt = 10\<rparr>] \<and>
   getMachinesBySubstationId 1 db_device_with_images =
     [\<lparr>m_id = 1, m_substationId = 1, m_positionX = 0, m_positionY = 0, m_name = [0x4D],
       m_info = [0x69], m_imageId = None, m_updatedAt = 30, m_createdAt = 20\<rparr>] \<and>
   images db_device_with_images =
     [\<lparr>i_id = 1, i_machineId = None, i_data = [0x62], i_timestamp = 20\<rparr>,
      \<lparr>i_id = 2, i_machineId = Some 1, i_data = [0x63], i_timestamp = 30\<rparr>] \<and>
   fst (deleteSubstation 1 db_device_with_images) \<and>
   getAllSubstations (snd (deleteSubstation 1 db_device_with_images)) = [] \<and>
   getMachinesBySubstationId 1 (snd (deleteSubstation 1 db_device_with_images)) = [] \<and>
   images (snd (deleteSubstation 1 db_device_with_images)) =
     [\<lparr>i_id = 1, i_machineId = None, i_data = [0x62], i_timestamp = 20\<rparr>,
      \<lparr>i_id = 2, i_machineId = Some 1, i_data = [0x63], i_timestamp = 30\<rparr>]"
  by (simp add: db_device_with_images_eq deleteSubstation_def substations_delete_def
        deleteMachinesBySubstationId_def getMachinesBySubstationId_def getAllSubstations_def
        deleteMachine_def machines_get_def machines_delete_def Let_def)

subsection \<open>A cell that holds two devices\<close>

text \<open>
  The store does not keep two devices from one cell: a snapshot may bring them.
  \<^verbatim>\<open>saveMachine\<close> then updates the first device it finds at the cell and leaves the
  other, so the cell still holds two rows.
\<close>

lemma saveMachine_two_at_cell:
  "importData snapshot_two_at_cell initDB =
     (Inr True,
      \<lparr>substations = [\<lparr>s_id = 1, s_name = [0x41], s_createdAt = 1\<rparr>], substations_gen = 2,
       machines = snap_machines snapshot_two_at_cell, machines_gen = 3,
       images = [], images_gen = 1, syncRecords = [], syncRecords_gen = 1\<rparr>) \<and>
   map m_name
     (machines_at 1 0 0
        (snd (saveMachine 1 0 0 (Some [0x5A]) None None (clock_at 9)
           (snd (saveMachine 1 0 0 (Some [0x5A]) None None (clock_at 5)
              (snd (importData snapshot_two_at_cell initDB)))))))
     = [[0x5A], [0x59]]"
  by (simp add: snapshot_two_at_cell_def importData_def clear_stores_def substations_add_def
        machines_add_def initDB_def saveMachine_def getMachineByPosition_def
        getMachinesBySubstationId_def machines_at_def machines_put_def clock_at_def
        or_empty_def Let_def)

subsection \<open>Well-formedness is kept by every operation\<close>

lemma wf_db_substations_add:
  "wf_db d \<Longrightarrow> substations_add s d = Inr r \<Longrightarrow> wf_db (snd r)"
  by (auto simp: wf_db_def substations_add_def list_all_iff split: if_splits)
     (force intro: less_SucI)+

lemma wf_db_machines_add: "wf_db d \<Longrightarrow> wf_db (snd (machines_add m d))"
  by (auto simp: wf_db_def machines_add_def list_all_iff intro: less_SucI)

lemma wf_db_clear_stores: "wf_db d \<Longrightarrow> wf_db (clear_stores d)"
  by (simp add: wf_db_def clear_stores_def)

lemma wf_db_import_substations:
  "wf_db d \<Longrightarrow> import_substations xs d = Inr d' \<Longrightarrow> wf_db d'"
  by (induction xs arbitrary: d) (auto split: sum.splits dest: wf_db_substations_add)

lemma wf_db_import_machines: "wf_db d \<Longrightarrow> wf_db (import_machines ms d)"
  by (induction ms arbitrary: d) (simp_all add: wf_db_machines_add)

lemma wf_db_addSubstation: "wf_db d \<Longrightarrow> wf_db (snd (addSubstation n t d))"
  by (auto simp: addSubstation_def Let_def split: sum.splits dest: wf_db_substations_add)

lemma wf_db_importData: "wf_db d \<Longrightarrow> wf_db (snd (importData data d))"
  by (auto simp: importData_def split: sum.splits
        intro: wf_db_import_machines wf_db_import_substations wf_db_clear_stores)

lemma wf_db_deleteMachine: "wf_db d \<Longrightarrow> wf_db (snd (deleteMachine k d))"
  by (auto simp: wf_db_def deleteMachine_def machines_delete_def images_delete_def Let_def
        list_all_iff distinct_map_filter split: option.splits)

lemma wf_db_deleteMachines_loop: "wf_db d \<Longrightarrow> wf_db (deleteMachines_loop ms d)"
  by (induction ms arbitrary: d) (simp_all add: wf_db_deleteMachine)

lemma wf_db_deleteSubstation: "wf_db d \<Longrightarrow> wf_db (snd (deleteSubstation k d))"
proof -
  assume "wf_db d"
  then have "wf_db (deleteMachinesBySubstationId k d)"
    by (simp add: deleteMachinesBySubstationId_def wf_db_deleteMachines_loop)
  then show ?thesis
    by (auto simp: wf_db_def deleteSubstation_def substations_delete_def list_all_iff
          distinct_map_filter)
qed

lemma wf_db_addSyncRecord: "wf_db d \<Longrightarrow> wf_db (snd (addSyncRecord ty f t now d))"
  by (simp add: wf_db_def addSyncRecord_def syncRecords_add_def)

subsection \<open>Export followed by import\<close>

text \<open>
  What a round trip does on a well-formed database. It succeeds; the sites come back in
  order with their names and \<^verbatim>\<open>createdAt\<close> and with new ids, none below the old key
  generator; the devices come back with the \<^verbatim>\<open>substationId\<close> they had. So no site of
  the database after the round trip has a device.
\<close>

lemma import_substations_rows:
  "import_substations xs d = Inr d' \<Longrightarrow>
     map (\<lambda>s. (s_name s, s_createdAt s)) (substations d') =
       map (\<lambda>s. (s_name s, s_createdAt s)) (substations d) @
       map (\<lambda>s. (s_name s, s_createdAt s)) xs \<and>
     (\<forall>s \<in> set (substations d'). s \<in> set (substations d) \<or> substations_gen d \<le> s_id s) \<and>
     machines d' = machines d \<and> machines_gen d' = machines_gen d"
proof (induction xs arbitrary: d)
  case Nil
  then show ?case by simp
next
  case (Cons x xs)
  from Cons.prems obtain r where r: "substations_add x d = Inr r"
    and rest: "import_substations xs (snd r) = Inr d'"
    by (auto split: sum.splits)
  from r have d1: "substations (snd r) = substations d @ [x\<lparr>s_id := substations_gen d\<rparr>]"
    "substations_gen (snd r) = Suc (substations_gen d)"
    "machines (snd r) = machines d" "machines_gen (snd r) = machines_gen d"
    by (auto simp: substations_add_def split: if_splits)
  from Cons.IH [OF rest] d1 show ?case by auto
qed

lemma import_machines_rows:
  "m_substationId ` set (machines (import_machines ms d)) =
     m_substationId ` set (machines d) \<union> m_substationId ` set ms \<and>
   substations (import_machines ms d) = substations d"
  by (induction ms arbitrary: d) (auto simp: machines_add_def)

lemma exportAllData_parts:
  "snap_substations (exportAllData t d) = substations d"
  "set (snap_machines (exportAllData t d)) =
     {m \<in> set (machines d). m_substationId m \<in> s_id ` set (substations d)}"
  by (auto simp: exportAllData_def getAllSubstations_def getMachinesBySubstationId_def Let_def)

lemma roundtrip_succeeds:
  assumes "wf_db d"
  shows "\<exists>d1. import_substations (substations d) (clear_stores d) = Inr d1 \<and>
              importData (exportAllData t d) d =
                (Inr True, import_machines (snap_machines (exportAllData t d)) d1)"
proof -
  from assms have "distinct (map s_name (substations d))" by (simp add: wf_db_def)
  then have "\<not> (\<exists>e. import_substations (substations d) (clear_stores d) = Inl e)"
    by (simp add: import_substations_fails_iff) (simp add: site_names_def clear_stores_def)
  then obtain d1 where "import_substations (substations d) (clear_stores d) = Inr d1"
    by (cases "import_substations (substations d) (clear_stores d)") auto
  then show ?thesis by (simp add: importData_def exportAllData_parts)
qed

lemma roundtrip_sites:
  assumes "wf_db d"
  shows "map (\<lambda>s. (s_name s, s_createdAt s)) (getAllSubstations (roundtrip t d)) =
         map (\<lambda>s. (s_name s, s_createdAt s)) (getAllSubstations d)"
proof -
  from roundtrip_succeeds [OF assms, of t] obtain d1
    where d1: "import_substations (substations d) (clear_stores d) = Inr d1"
      and r: "roundtrip t d = import_machines (snap_machines (exportAllData t d)) d1"
    by (auto simp: roundtrip_def)
  from import_substations_rows [OF d1] show ?thesis
    by (simp add: r getAllSubstations_def import_machines_rows clear_stores_def)
qed

lemma roundtrip_detaches:
  assumes "wf_db d" and "s \<in> set (getAllSubstations (roundtrip t d))"
  shows "getMachinesBySubstationId (s_id s) (roundtrip t d) = []"
proof -
  from roundtrip_succeeds [OF assms(1), of t] obtain d1
    where d1: "import_substations (substations d) (clear_stores d) = Inr d1"
      and r: "roundtrip t d = import_machines (snap_machines (exportAllData t d)) d1"
    by (auto simp: roundtrip_def)
  from import_substations_rows [OF d1]
  have new: "\<forall>s \<in> set (substations d1). substations_gen d \<le> s_id s" and m1: "machines d1 = []"
    by (simp_all add: clear_stores_def)
  from assms(2) have "s \<in> set (substations d1)"
    by (simp add: r getAllSubstations_def import_machines_rows)
  with new have ge: "substations_gen d \<le> s_id s" by blast
  have "m_substationId m < substations_gen d" if "m \<in> set (machines (roundtrip t d))" for m
  proof -
    from that have "m_substationId m \<in> m_substationId ` set (snap_machines (exportAllData t d))"
      using import_machines_rows [of "snap_machines (exportAllData t d)" d1] m1 r by auto
    then have "m_substationId m \<in> s_id ` set (substations d)"
      by (auto simp: exportAllData_parts)
    with assms(1) show ?thesis by (auto simp: wf_db_def list_all_iff)
  qed
  with ge show ?thesis
    by (fastforce simp: getMachinesBySubstationId_def filter_empty_conv)
qed

text \<open>
  C1, at \<open>db_one_device\<close> (site 1 with one device). After one round trip the site has id
  2; \<^verbatim>\<open>getMachinesBySubstationId\<close> of that site is empty, and the device, with
  \<^verbatim>\<open>substationId\<close> 1, belongs to no site. The export of that state holds no device, so
  after a second round trip the \<^verbatim>\<open>machines\<close> store is empty.
\<close>

theorem roundtrip_loses_devices:
  "getMachinesBySubstationId 1 db_one_device =
     [\<lparr>m_id = 1, m_substationId = 1, m_positionX = 0, m_positionY = 0, m_name = [0x4D],
       m_info = [], m_imageId = None, m_updatedAt = 20, m_createdAt = 20\<rparr>] \<and>
   getAllSubstations (roundtrip 30 db_one_device) =
     [\<lparr>s_id = 2, s_name = [0x41], s_createdAt = 10\<rparr>] \<and>
   getMachinesBySubstationId 2 (roundtrip 30 db_one_device) = [] \<and>
   getMachinesBySubstationId 1 (roundtrip 30 db_one_device) =
     [\<lparr>m_id = 2, m_substationId = 1, m_positionX = 0, m_positionY = 0, m_name = [0x4D],
       m_info = [], m_imageId = None, m_updatedAt = 20, m_createdAt = 20\<rparr>] \<and>
   machines (roundtrip 40 (roundtrip 30 db_one_device)) = []"
  by (simp add: db_one_device_eq roundtrip_def importData_def exportAllData_def
        getAllSubstations_def getMachinesBySubstationId_def clear_stores_def
        substations_add_def machines_add_def DB_VERSION_def Let_def)

section \<open>Properties of the sync module\<close>

subsection \<open>Sending on a session\<close>

lemma send_open:
  "dataChannel c = Some ch \<Longrightarrow> readyState ch = Open \<Longrightarrow> send msg c = Inr (deliver msg c)"
  by (simp add: send_def channel_send_def deliver_def)

text \<open>
  C9. For every message and every session whose channel is not open (no channel yet,
  or a channel that is connecting, closing or closed), \<^verbatim>\<open>send\<close> returns normally and
  the session is the one it was: nothing is handed to the channel, nothing is kept for
  later, and the platform's \<^verbatim>\<open>InvalidStateError\<close> is not raised. \<^verbatim>\<open>send\<close> has no
  access to the store.
\<close>

theorem send_not_open_noop:
  "\<not> channel_open c \<Longrightarrow> send msg c = Inr c"
  by (auto simp: send_def channel_open_def split: option.splits)

theorem send_not_open_noop_witness:
  "\<not> channel_open (new_SyncConnection [0x68] True) \<and>
   send Ping (new_SyncConnection [0x68] True) = Inr (new_SyncConnection [0x68] True)"
proof -
  have h: "\<not> channel_open (new_SyncConnection [0x68] True)"
    by (simp add: channel_open_def new_SyncConnection_def)
  from send_not_open_noop [OF h, of Ping] h show ?thesis by simp
qed

subsection \<open>Connecting while hosting\<close>

lemma requestSyncFrom_not_hosting:
  "\<not> isHosting st \<Longrightarrow>
     fst (requestSyncFrom hostIp st) \<and>
     syncClients (snd (requestSyncFrom hostIp st)) =
       syncClients st @ [new_SyncConnection hostIp True]"
  by (simp add: requestSyncFrom_def)

text \<open>
  C7. For every endpoint, \<^verbatim>\<open>requestSyncFrom\<close> while \<^verbatim>\<open>isHosting\<close> holds returns
  \<^verbatim>\<open>false\<close> (the rendering of the role conflict) and leaves the whole module state as
  it was: no session is added to \<^verbatim>\<open>syncClients\<close>, the module is still hosting, and
  \<^verbatim>\<open>onStatusChange\<close> is not called.
\<close>

theorem requestSyncFrom_while_hosting:
  "isHosting st \<Longrightarrow>
     requestSyncFrom hostIp st = (False, st) \<and>
     syncClients (snd (requestSyncFrom hostIp st)) = syncClients st \<and>
     isHosting (snd (requestSyncFrom hostIp st)) \<and>
     statusLog (snd (requestSyncFrom hostIp st)) = statusLog st"
  by (simp add: requestSyncFrom_def)

theorem requestSyncFrom_while_hosting_witness:
  "isHosting (snd (startBroadcast [0x31] (initSync [0x64]))) \<and>
   requestSyncFrom [0x32] (snd (startBroadcast [0x31] (initSync [0x64])))
     = (False, snd (startBroadcast [0x31] (initSync [0x64])))"
proof -
  have h: "isHosting (snd (startBroadcast [0x31] (initSync [0x64])))"
    by (simp add: startBroadcast_def initSync_def)
  from requestSyncFrom_while_hosting [OF h, of "[0x32]"] h show ?thesis by simp
qed

subsection \<open>Pushing a snapshot\<close>

lemma send_eq: "send msg c = Inr (if channel_open c then deliver msg c else c)"
  by (auto simp: send_def channel_send_def channel_open_def deliver_def split: option.splits)

lemma send_loop_eq:
  "send_loop msg cs = (None, map (\<lambda>c. if session_open c then deliver msg c else c) cs)"
  by (induction cs) (simp_all add: send_eq session_open_def)

lemma sync_inv_initSync: "sync_inv (initSync deviceId)"
  by (simp add: sync_inv_def initSync_def)

lemma sync_inv_startBroadcast: "sync_inv st \<Longrightarrow> sync_inv (snd (startBroadcast ip st))"
  by (simp add: sync_inv_def startBroadcast_def)

lemma sync_inv_stopBroadcast: "sync_inv (stopBroadcast st)"
  by (simp add: sync_inv_def stopBroadcast_def)

lemma sync_inv_requestSyncFrom: "sync_inv st \<Longrightarrow> sync_inv (snd (requestSyncFrom hostIp st))"
  by (simp add: sync_inv_def requestSyncFrom_def Let_def)

lemma sync_inv_performSync: "sync_inv st \<Longrightarrow> sync_inv (snd (performSync now d st))"
  by (cases "localSyncManager st")
     (auto simp: performSync_def Let_def send_loop_eq sync_inv_def)

text \<open>
  C8. \<^verbatim>\<open>performSync\<close> returns \<^verbatim>\<open>false\<close> and changes nothing when the module is
  neither connected nor hosting. Otherwise it returns \<^verbatim>\<open>true\<close>; with the one snapshot
  \<open>exportAllData now d\<close> it hands one \<^verbatim>\<open>sync-data\<close> message to the channel of every
  open session and nothing to the others, and, when hosting, posts that snapshot once on
  the broadcast channel of the \<^verbatim>\<open>LocalSyncManager\<close>, which is there while hosting;
  nothing else changes.
\<close>

theorem performSync_spec:
  "(\<not> isConnected st \<and> \<not> isHosting st \<longrightarrow> performSync now d st = (False, st)) \<and>
   (isConnected st \<or> isHosting st \<longrightarrow>
      performSync now d st =
        (True,
         st\<lparr>syncClients :=
              map (\<lambda>c. if session_open c then deliver (SyncData (exportAllData now d)) c else c)
                (syncClients st),
            localSyncManager :=
              (if isHosting st
               then map_option (broadcast (localDeviceId st) (exportAllData now d))
                      (localSyncManager st)
               else localSyncManager st)\<rparr>)) \<and>
   (isHosting st \<and> sync_inv st \<longrightarrow>
      (\<exists>lm. localSyncManager st = Some lm \<and>
            localSyncManager (snd (performSync now d st)) =
              Some (lm\<lparr>posted := posted lm @
                         [BusSyncData (localDeviceId st) (exportAllData now d)]\<rparr>)))"
  by (cases "localSyncManager st")
     (auto simp: performSync_def Let_def send_loop_eq sync_inv_def broadcast_def)


text \<open>
  Not connected: nothing is sent. Hosting with one open and one connecting session: the
  open session and the bus get the snapshot, the connecting session gets nothing.
\<close>

lemma sync_hosting_two_eq:
  "sync_hosting_two =
     \<lparr>syncClients =
        [\<lparr>peerId = [0x70], isInitiator = True, connected = True,
          dataChannel = Some \<lparr>readyState = Open, sent = []\<rparr>\<rparr>,
         \<lparr>peerId = [0x71], isInitiator = True, connected = False,
          dataChannel = Some \<lparr>readyState = Connecting, sent = []\<rparr>\<rparr>],
      localDeviceId = [0x64], isHosting = True, isConnected = True,
      localSyncManager = Some \<lparr>posted = []\<rparr>,
      statusLog = [StatusReady, StatusConnecting [0x70], StatusConnecting [0x71],
                   StatusHosting [0x31] SYNC_PORT [0x64]]\<rparr>"
  by (simp add: sync_hosting_two_def requestSyncFrom_def initSync_def startBroadcast_def
        new_SyncConnection_def dataChannel_onopen_def Let_def)

theorem performSync_spec_witness:
  "\<not> isConnected (initSync [0x64]) \<and> \<not> isHosting (initSync [0x64]) \<and>
   performSync 50 db_one_device (initSync [0x64]) = (False, initSync [0x64]) \<and>
   isHosting sync_hosting_two \<and> sync_inv sync_hosting_two \<and>
   fst (performSync 50 db_one_device sync_hosting_two) \<and>
   map (\<lambda>c. map_option sent (dataChannel c))
     (syncClients (snd (performSync 50 db_one_device sync_hosting_two))) =
     [Some [SyncData (exportAllData 50 db_one_device)], Some []] \<and>
   map_option posted (localSyncManager (snd (performSync 50 db_one_device sync_hosting_two))) =
     Some [BusSyncData [0x64] (exportAllData 50 db_one_device)]"
proof -
  have a: "\<not> isConnected (initSync [0x64]) \<and> \<not> isHosting (initSync [0x64])"
    by (simp add: initSync_def)
  have b: "isHosting sync_hosting_two \<and> sync_inv sync_hosting_two"
    by (simp add: sync_hosting_two_eq sync_inv_def)
  have c: "map (\<lambda>c. if session_open c then deliver (SyncData (exportAllData 50 db_one_device)) c else c)
             (syncClients sync_hosting_two) =
           [\<lparr>peerId = [0x70], isInitiator = True, connected = True,
             dataChannel = Some \<lparr>readyState = Open,
                                 sent = [SyncData (exportAllData 50 db_one_device)]\<rparr>\<rparr>,
            \<lparr>peerId = [0x71], isInitiator = True, connected = False,
             dataChannel = Some \<lparr>readyState = Connecting, sent = []\<rparr>\<rparr>]"
    by (simp add: sync_hosting_two_eq session_open_def channel_open_def deliver_def)
  have l: "localSyncManager sync_hosting_two = Some \<lparr>posted = []\<rparr>"
      "localDeviceId sync_hosting_two = [0x64]"
    by (simp_all add: sync_hosting_two_eq)
  from performSync_spec [of "initSync [0x64]" 50 db_one_device]
       performSync_spec [of sync_hosting_two 50 db_one_device] a b c l
  show ?thesis by (simp add: broadcast_def)
qed

end
